theory Spec2Isabelle
  imports Main "HOL-Library.Sublist" "HOL-Library.Char_ord" "HOL-Library.List_Lexorder"
begin

section \<open>Paths and the ignore filter\<close>

text \<open>
  A \<^verbatim>\<open>pathlib\<close> path is the list of its parts (\<^verbatim>\<open>path.parts\<close>).  The release
  directory is a relative path; a path string handed to \<^verbatim>\<open>Path\<close> is cut at its slashes,
  and empty segments and \<^verbatim>\<open>.\<close> segments are dropped, as \<^verbatim>\<open>pathlib\<close> does for a relative
  path.  Strings that start with a slash (absolute paths) are not covered.
\<close>

type_synonym path = "string list"

datatype error = ParseError | SyntaxError | TypeError | ValueError | OSError

fun split_sep :: "char \<Rightarrow> string \<Rightarrow> string list" where
  "split_sep sep [] = [[]]"
| "split_sep sep (c # cs) =
     (if c = sep then [] # split_sep sep cs
      else (c # hd (split_sep sep cs)) # tl (split_sep sep cs))"

definition parts_of :: "string \<Rightarrow> path" where
  "parts_of s = filter (\<lambda>seg. seg \<noteq> [] \<and> seg \<noteq> ''.'') (split_sep CHR ''/'' s)"

text \<open>
  \<^verbatim>\<open>fnmatch.fnmatchcase(name, pat)\<close>, by which a POSIX path matches one segment: \<^verbatim>\<open>*\<close>
  stands for any run of characters, \<^verbatim>\<open>?\<close> for one character, every other character
  for itself.  Bracket classes are not modelled; no pattern of \<^verbatim>\<open>IGNORE_PATTERNS\<close> has
  one.
\<close>

fun fnmatchcase :: "string \<Rightarrow> string \<Rightarrow> bool" where
  "fnmatchcase [] [] = True"
| "fnmatchcase (c # name) [] = False"
| "fnmatchcase [] (p # pat) = (p = CHR ''*'' \<and> fnmatchcase [] pat)"
| "fnmatchcase (c # name) (p # pat) =
     (if p = CHR ''*'' then fnmatchcase (c # name) pat \<or> fnmatchcase name (p # pat)
      else (p = CHR ''?'' \<or> p = c) \<and> fnmatchcase name pat)"

text \<open>
  \<^verbatim>\<open>PurePath.match(pattern)\<close> for a relative pattern: the pattern's parts are matched
  against the last parts of the path, from the right; an empty pattern raises
  \<^verbatim>\<open>ValueError\<close>.
\<close>

definition path_match :: "path \<Rightarrow> string \<Rightarrow> error + bool" where
  "path_match path pattern =
     (let pat_parts = parts_of pattern in
      if pat_parts = [] then Inl ValueError
      else if length pat_parts > length path then Inr False
      else Inr (list_all (\<lambda>(part, pat). fnmatchcase part pat) (zip (rev path) (rev pat_parts))))"

definition IGNORE_PATTERNS :: "string list" where
  "IGNORE_PATTERNS =
     [''.git'', ''.github'', ''.gitignore'', ''.DS_Store'', ''thumbs.db'', ''.idea'',
      ''venv'', ''__pycache__'', ''*.pyc'', ''*.pyo'']"

text \<open>
  \<^verbatim>\<open>any(pattern in path.parts or path.match(pattern) for pattern in patterns)\<close>: the
  generator stops at the first pattern that holds, and an exception of \<^verbatim>\<open>match\<close> would
  leave it.
\<close>

fun any_pattern :: "path \<Rightarrow> string list \<Rightarrow> error + bool" where
  "any_pattern path [] = Inr False"
| "any_pattern path (pattern # patterns) =
     (if pattern \<in> set path then Inr True
      else case path_match path pattern of
             Inl e \<Rightarrow> Inl e
           | Inr matched \<Rightarrow> if matched then Inr True else any_pattern path patterns)"

definition should_ignore :: "path \<Rightarrow> error + bool" where
  "should_ignore path = any_pattern path IGNORE_PATTERNS"

text \<open>
  \<^verbatim>\<open>PurePath.relative_to(other)\<close> raises \<^verbatim>\<open>ValueError\<close> unless the path lies below
  \<^verbatim>\<open>other\<close>; \<^verbatim>\<open>PurePath.parent\<close> drops the last part.
\<close>

definition relative_to :: "path \<Rightarrow> path \<Rightarrow> error + path" where
  "relative_to p other =
     (if prefix other p then Inr (drop (length other) p) else Inl ValueError)"

definition parent :: "path \<Rightarrow> path" where
  "parent p = butlast p"

section \<open>XML elements\<close>

text \<open>
  An \<^verbatim>\<open>xml.etree.ElementTree.Element\<close>: tag, attributes, text and children.  The
  catalog \<^verbatim>\<open>addons.xml\<close> is its root element, with one child per package; a manifest
  \<^verbatim>\<open>addon.xml\<close> is its root element.
\<close>

datatype element =
  Element (tag: string) (attrib: "(string \<times> string) list") (elem_text: "string option")
    (children: "element list")

definition get :: "element \<Rightarrow> string \<Rightarrow> string option" where
  "get e key = map_of (attrib e) key"

text \<open>What an f-string prints for an attribute that may be \<^verbatim>\<open>None\<close>.\<close>

definition py_str :: "string option \<Rightarrow> string" where
  "py_str v = (case v of None \<Rightarrow> ''None'' | Some s \<Rightarrow> s)"

text \<open>
  \<^verbatim>\<open>root.find(f"./addon[@id='{addon_id}']")\<close>: the first child named \<^verbatim>\<open>addon\<close> whose
  \<^verbatim>\<open>id\<close> attribute is the interpolated text.  The text stands between apostrophes in
  the path expression.  An apostrophe inside it ends the literal early, and ElementPath
  then raises (\<^verbatim>\<open>SyntaxError: invalid predicate\<close> for an id such as \<^verbatim>\<open>it's\<close>) unless the
  rest of the id happens to form a path expression of its own.  The embedding raises
  \<^verbatim>\<open>SyntaxError\<close> for every id with an apostrophe; what is proved about the lookup is
  stated for ids without one.
\<close>

definition find_addon :: "element \<Rightarrow> string option \<Rightarrow> error + element option" where
  "find_addon root addon_id =
     (let v = py_str addon_id in
      if CHR 0x27 \<in> set v then Inl SyntaxError
      else Inr (List.find (\<lambda>child. tag child = ''addon'' \<and> get child ''id'' = Some v)
                  (children root)))"

definition set_children :: "element \<Rightarrow> element list \<Rightarrow> element" where
  "set_children root cs = Element (tag root) (attrib root) (elem_text root) cs"

text \<open>
  \<^verbatim>\<open>root.remove(existing)\<close> takes out the child that is the object \<^verbatim>\<open>existing\<close> and
  raises \<^verbatim>\<open>ValueError\<close> when it is not a child.  The loop hands it the child that the
  lookup found, the first one with that tag and id, so the first child equal to it is that
  child.
\<close>

definition remove_child :: "element \<Rightarrow> element \<Rightarrow> error + element" where
  "remove_child root existing =
     (if existing \<in> set (children root)
      then Inr (set_children root (remove1 existing (children root)))
      else Inl ValueError)"

definition append_child :: "element \<Rightarrow> element \<Rightarrow> element" where
  "append_child root e = set_children root (children root @ [e])"

section \<open>The output directory and the packages\<close>

text \<open>
  The files below \<^verbatim>\<open>zips/\<close>: the catalog \<^verbatim>\<open>addons.xml\<close> (absent, unreadable for
  \<^verbatim>\<open>ET.parse\<close>, or a document), its checksum file, the archives
  \<^verbatim>\<open>zips/<id>/<id>-<version>.zip\<close> by directory and file name, and the published assets
  by directory and relative path.  An archive is the list of its members, each the
  archive name and the contents.  The trace records, in order, what is printed and which
  file is opened for writing.
\<close>

type_synonym archive = "(path \<times> string) list"

datatype digest = Md5 "error + element"

datatype target =
  CatalogFile | Md5File | ZipFile "string \<times> string" | AssetFile "string \<times> path"

datatype message =
  SkippingExisting string string
  | CreatedZip string string
  | ErrorProcessing string error
  | UpdatedCatalog
  | NoChanges
  | UpdatedMd5

datatype event = Print message | OpenW target

record disk =
  addons_xml :: "(error + element) option"
  addons_xml_md5 :: "digest option"
  zip_files :: "string \<times> string \<Rightarrow> archive option"
  asset_files :: "string \<times> path \<Rightarrow> string option"
  trace :: "event list"

definition print :: "message \<Rightarrow> disk \<Rightarrow> disk" where
  "print m d = d\<lparr>trace := trace d @ [Print m]\<rparr>"

text \<open>
  An entry of the release directory, as \<^verbatim>\<open>_clean_binaries\<close> has left it: its name,
  whether it is a directory, its \<^verbatim>\<open>addon.xml\<close> (absent, rejected by \<^verbatim>\<open>ET.parse\<close>, or
  the root element), and the regular files below it in the order of \<^verbatim>\<open>rglob\<close>, each with
  its path relative to the entry.  The input and output operations of a package that can
  fail are making the archive's directory and opening the archive, writing a member, and
  copying an asset; \<^verbatim>\<open>fault\<close> says which of them raises \<^verbatim>\<open>OSError\<close> for this package,
  if any: the write of member number \<open>k\<close> or the copy number \<open>k\<close>, counted from 0.
  Reading the catalog can fail too; writing it and its checksum is taken to succeed.
\<close>

datatype io_fault = NoFault | ZipOpenFault | ZipWriteFault nat | CopyFault nat

record package =
  dir_name :: string
  is_dir :: bool
  manifest :: "(error + element) option"
  files :: "(path \<times> string) list"
  fault :: io_fault

record generator =
  release_path :: path
  force :: bool

section \<open>The archiver\<close>

definition zip_file :: "string \<Rightarrow> string option \<Rightarrow> string \<times> string" where
  "zip_file addon_id version = (addon_id, addon_id @ ''-'' @ py_str version @ ''.zip'')"

definition members :: "disk \<Rightarrow> string \<times> string \<Rightarrow> archive" where
  "members d zf = (case zip_files d zf of None \<Rightarrow> [] | Some ms \<Rightarrow> ms)"

definition open_zip :: "string \<times> string \<Rightarrow> disk \<Rightarrow> disk" where
  "open_zip zf d = d\<lparr>zip_files := (zip_files d)(zf \<mapsto> []), trace := trace d @ [OpenW (ZipFile zf)]\<rparr>"

definition zf_write :: "string \<times> string \<Rightarrow> path \<Rightarrow> string \<Rightarrow> disk \<Rightarrow> disk" where
  "zf_write zf archive_name contents d =
     d\<lparr>zip_files := (zip_files d)(zf \<mapsto> members d zf @ [(archive_name, contents)])\<rparr>"

text \<open>
  The loop of \<^verbatim>\<open>_create_zip\<close> over \<^verbatim>\<open>addon_path.rglob("*")\<close>, and \<^verbatim>\<open>_create_zip\<close>.
  Its \<^verbatim>\<open>zip_dir.mkdir(exist_ok=True)\<close> does nothing when the directory is there, as it is
  whenever the archive is; where it fails, the archive is not opened (\<open>ZipOpenFault\<close>).
  The size in the final message is left out.
\<close>

fun write_files ::
  "path \<Rightarrow> string \<times> string \<Rightarrow> io_fault \<Rightarrow> (path \<times> string) list \<Rightarrow> disk \<Rightarrow> error option \<times> disk"
where
  "write_files addon_path zf flt [] d = (None, d)"
| "write_files addon_path zf flt ((rel, contents) # fs) d =
     (let file_path = addon_path @ rel in
      case should_ignore file_path of
        Inl e \<Rightarrow> (Some e, d)
      | Inr ignored \<Rightarrow>
          if ignored then write_files addon_path zf flt fs d
          else
            case relative_to file_path (parent addon_path) of
              Inl e \<Rightarrow> (Some e, d)
            | Inr archive_name \<Rightarrow>
                if flt = ZipWriteFault (length (members d zf)) then (Some OSError, d)
                else write_files addon_path zf flt fs (zf_write zf archive_name contents d))"

definition create_zip ::
  "generator \<Rightarrow> package \<Rightarrow> string option \<Rightarrow> string option \<Rightarrow> disk \<Rightarrow> error option \<times> disk"
where
  "create_zip self addon_dir addon_id version d =
     (case addon_id of
        None \<Rightarrow> (Some TypeError, d)
      | Some aid \<Rightarrow>
          let zf = zip_file aid version in
          if zip_files d zf \<noteq> None \<and> \<not> force self
          then (None, print (SkippingExisting aid (py_str version)) d)
          else if fault addon_dir = ZipOpenFault then (Some OSError, d)
          else
            case write_files (release_path self @ [dir_name addon_dir]) zf (fault addon_dir)
                   (files addon_dir) (open_zip zf d) of
              (Some e, d') \<Rightarrow> (Some e, d')
            | (None, d') \<Rightarrow> (None, print (CreatedZip aid (py_str version)) d'))"

section \<open>The asset publisher\<close>

definition declared_assets :: "element \<Rightarrow> string list" where
  "declared_assets addon_xml_root =
     ''addon.xml'' #
     concat (map
       (\<lambda>ext.
          if get ext ''point'' \<in> set [Some ''xbmc.addon.metadata'', Some ''kodi.addon.metadata'']
          then
            (case List.find (\<lambda>c. tag c = ''assets'') (children ext) of
               None \<Rightarrow> []
             | Some assets_node \<Rightarrow>
                 concat (map (\<lambda>asset. case elem_text asset of
                                          None \<Rightarrow> []
                                        | Some t \<Rightarrow> if t = [] then [] else [t])
                           (children assets_node)))
          else [])
       (filter (\<lambda>c. tag c = ''extension'') (children addon_xml_root)))"

definition copy :: "string \<Rightarrow> path \<Rightarrow> string \<Rightarrow> disk \<Rightarrow> disk" where
  "copy addon_id dest contents d =
     d\<lparr>asset_files := (asset_files d)((addon_id, dest) \<mapsto> contents),
       trace := trace d @ [OpenW (AssetFile (addon_id, dest))]\<rparr>"

fun copy_files ::
  "string \<Rightarrow> package \<Rightarrow> nat \<Rightarrow> string list \<Rightarrow> disk \<Rightarrow> error option \<times> disk"
where
  "copy_files addon_id addon_dir n [] d = (None, d)"
| "copy_files addon_id addon_dir n (asset # assets) d =
     (case map_of (files addon_dir) (parts_of asset) of
        None \<Rightarrow> copy_files addon_id addon_dir n assets d
      | Some contents \<Rightarrow>
          if fault addon_dir = CopyFault n then (Some OSError, d)
          else copy_files addon_id addon_dir (Suc n) assets
                 (copy addon_id (parts_of asset) contents d))"

definition copy_assets :: "package \<Rightarrow> element \<Rightarrow> disk \<Rightarrow> error option \<times> disk" where
  "copy_assets addon_dir addon_xml_root d =
     (case get addon_xml_root ''id'' of
        None \<Rightarrow> (Some TypeError, d)
      | Some addon_id \<Rightarrow> copy_files addon_id addon_dir 0 (declared_assets addon_xml_root) d)"

section \<open>The reconciler\<close>

text \<open>
  The variables of \<^verbatim>\<open>_generate_addons_xml\<close> that its loop changes, and the files.
\<close>

record loop_state =
  root :: element
  changed :: bool
  found_ids :: "string option set"
  fs :: disk

text \<open>Lines 150 to 157: update or add, build the archive, publish the assets.\<close>

definition update_or_add ::
  "generator \<Rightarrow> package \<Rightarrow> element \<Rightarrow> element option \<Rightarrow> loop_state \<Rightarrow> error option \<times> loop_state"
where
  "update_or_add self addon_dir addon_root existing st =
     (case (case existing of None \<Rightarrow> Inr (root st) | Some e \<Rightarrow> remove_child (root st) e) of
        Inl e \<Rightarrow> (Some e, st)
      | Inr r \<Rightarrow>
          let st1 = st\<lparr>root := append_child r addon_root\<rparr> in
          case create_zip self addon_dir (get addon_root ''id'') (get addon_root ''version'') (fs st1) of
            (Some e, d) \<Rightarrow> (Some e, st1\<lparr>fs := d\<rparr>)
          | (None, d) \<Rightarrow>
              (case copy_assets addon_dir addon_root d of
                 (Some e, d') \<Rightarrow> (Some e, st1\<lparr>fs := d'\<rparr>)
               | (None, d') \<Rightarrow> (None, st1\<lparr>fs := d', changed := True\<rparr>)))"

text \<open>
  The body of the \<^verbatim>\<open>try\<close> block, lines 134 to 157.  The result holds the exception that
  left the block, if any, and the state at that point: what the block has changed before
  it raises stays changed.
\<close>

definition try_body ::
  "generator \<Rightarrow> package \<Rightarrow> error + element \<Rightarrow> loop_state \<Rightarrow> error option \<times> loop_state"
where
  "try_body self addon_dir parsed st =
     (case parsed of
        Inl e \<Rightarrow> (Some e, st)
      | Inr addon_root \<Rightarrow>
          let addon_id = get addon_root ''id'';
              version = get addon_root ''version'';
              st1 = st\<lparr>found_ids := insert addon_id (found_ids st)\<rparr> in
          case find_addon (root st1) addon_id of
            Inl e \<Rightarrow> (Some e, st1)
          | Inr existing \<Rightarrow>
              if (case existing of
                    None \<Rightarrow> False
                  | Some e \<Rightarrow> get e ''version'' = version \<and> \<not> force self)
              then (None, st1)
              else update_or_add self addon_dir addon_root existing st1)"

text \<open>
  One round of the loop: a directory without \<^verbatim>\<open>addon.xml\<close> is passed over; an exception
  of the \<^verbatim>\<open>try\<close> block is printed and the loop goes on.
\<close>

definition process_addon :: "generator \<Rightarrow> package \<Rightarrow> loop_state \<Rightarrow> loop_state" where
  "process_addon self addon_dir st =
     (case manifest addon_dir of
        None \<Rightarrow> st
      | Some parsed \<Rightarrow>
          (case try_body self addon_dir parsed st of
             (None, st') \<Rightarrow> st'
           | (Some e, st') \<Rightarrow>
               st'\<lparr>fs := print (ErrorProcessing (dir_name addon_dir) e) (fs st')\<rparr>))"

definition addon_dirs :: "package list \<Rightarrow> package list" where
  "addon_dirs entries =
     filter (\<lambda>d. is_dir d \<and> dir_name d \<noteq> ''zips'' \<and> \<not> (case dir_name d of [] \<Rightarrow> False | c # _ \<Rightarrow> c = CHR ''.''))
       entries"

definition load_catalog :: "disk \<Rightarrow> error + element" where
  "load_catalog d =
     (case addons_xml d of
        None \<Rightarrow> Inr (Element ''addons'' [] None [])
      | Some (Inl e) \<Rightarrow> Inl e
      | Some (Inr r) \<Rightarrow> Inr r)"

definition initial_state :: "element \<Rightarrow> disk \<Rightarrow> loop_state" where
  "initial_state r d = \<lparr>root = r, changed = False, found_ids = {}, fs = d\<rparr>"

text \<open>
  The sort key \<^verbatim>\<open>child.get("id") or ""\<close>.  Strings are compared as Python compares
  them, lexicographically by character code, and \<open>sort_key\<close> is stable, as \<^verbatim>\<open>sorted\<close> is.
\<close>

definition id_key :: "element \<Rightarrow> string" where
  "id_key child = (case get child ''id'' of None \<Rightarrow> [] | Some s \<Rightarrow> s)"

definition write_catalog :: "element \<Rightarrow> disk \<Rightarrow> disk" where
  "write_catalog r d = d\<lparr>addons_xml := Some (Inr r), trace := trace d @ [OpenW CatalogFile]\<rparr>"

text \<open>
  \<^verbatim>\<open>_generate_addons_xml\<close>.  An exception of loading the catalog leaves the method; the
  result is that exception or the returned flag, and the files as the method leaves them.
\<close>

definition generate_addons_xml ::
  "generator \<Rightarrow> package list \<Rightarrow> disk \<Rightarrow> (error + bool) \<times> disk"
where
  "generate_addons_xml self entries d =
     (case load_catalog d of
        Inl e \<Rightarrow> (Inl e, d)
      | Inr r \<Rightarrow>
          let st = fold (process_addon self) (addon_dirs entries) (initial_state r d) in
          if changed st
          then (Inr True,
                print UpdatedCatalog
                  (write_catalog (set_children (root st) (sort_key id_key (children (root st)))) (fs st)))
          else (Inr False, print NoChanges (fs st)))"

definition generate_md5 :: "disk \<Rightarrow> error option \<times> disk" where
  "generate_md5 d =
     (case addons_xml d of
        None \<Rightarrow> (Some OSError, d)
      | Some content \<Rightarrow>
          (None, print UpdatedMd5
                   (d\<lparr>addons_xml_md5 := Some (Md5 content), trace := trace d @ [OpenW Md5File]\<rparr>)))"

text \<open>
  \<^verbatim>\<open>Generator.__init__\<close>, after \<^verbatim>\<open>zips/\<close> has been made and \<^verbatim>\<open>_clean_binaries\<close> has
  run: the exception that leaves it, if any, and the files.
\<close>

definition Generator :: "path \<Rightarrow> bool \<Rightarrow> package list \<Rightarrow> disk \<Rightarrow> error option \<times> disk" where
  "Generator release_dir frc entries d =
     (let self = \<lparr>release_path = release_dir, force = frc\<rparr> in
      case generate_addons_xml self entries d of
        (Inl e, d') \<Rightarrow> (Some e, d')
      | (Inr wrote, d') \<Rightarrow> if wrote then generate_md5 d' else (None, d'))"

section \<open>Decisions\<close>

text \<open>
  The three ways through lines 143 to 154 for a package whose manifest was read: the
  \<^verbatim>\<open>continue\<close> of line 148, the append alone, or the removal and the append.
  \<open>decision\<close> names the one a package takes in a state of the loop; there is none when
  the directory holds no manifest or an exception is raised before line 143.
\<close>

datatype decision = Skip | Insert | Replace

definition decision :: "generator \<Rightarrow> package \<Rightarrow> loop_state \<Rightarrow> decision option" where
  "decision self addon_dir st =
     (case manifest addon_dir of
        Some (Inr addon_root) \<Rightarrow>
          (case find_addon (root st) (get addon_root ''id'') of
             Inl e \<Rightarrow> None
           | Inr None \<Rightarrow> Some Insert
           | Inr (Some existing) \<Rightarrow>
               if get existing ''version'' = get addon_root ''version'' \<and> \<not> force self
               then Some Skip else Some Replace)
      | _ \<Rightarrow> None)"

text \<open>The exception that leaves the \<^verbatim>\<open>try\<close> block of a package, if any.\<close>

definition raised :: "generator \<Rightarrow> package \<Rightarrow> loop_state \<Rightarrow> error option" where
  "raised self addon_dir st =
     (case manifest addon_dir of
        None \<Rightarrow> None
      | Some parsed \<Rightarrow> fst (try_body self addon_dir parsed st))"

text \<open>The decisions of a run of the loop, one per directory, in order.\<close>

fun decisions :: "generator \<Rightarrow> package list \<Rightarrow> loop_state \<Rightarrow> decision option list" where
  "decisions self [] st = []"
| "decisions self (p # ps) st = decision self p st # decisions self ps (process_addon self p st)"


section \<open>Notions used in the statements\<close>

text \<open>The patterns of \<^verbatim>\<open>IGNORE_PATTERNS\<close> without a wildcard.\<close>

definition reserved_names :: "string list" where
  "reserved_names =
     [''.git'', ''.github'', ''.gitignore'', ''.DS_Store'', ''thumbs.db'', ''.idea'',
      ''venv'', ''__pycache__'']"

text \<open>What \<open>should_ignore\<close> decides, as a predicate.\<close>

definition ignored :: "path \<Rightarrow> bool" where
  "ignored path =
     (\<exists>pattern \<in> set IGNORE_PATTERNS. pattern \<in> set path \<or> path_match path pattern = Inr True)"


text \<open>
  Small inputs for the examples: the output directory before any run, a manifest
  \<^verbatim>\<open><addon id=".." version=".."/>\<close>, and a package directory that holds its manifest only.
\<close>

definition empty_disk :: disk where
  "empty_disk =
     \<lparr>addons_xml = None, addons_xml_md5 = None, zip_files = Map.empty,
      asset_files = Map.empty, trace = []\<rparr>"

definition addon :: "string \<Rightarrow> string \<Rightarrow> element" where
  "addon i v = Element ''addon'' [(''id'', i), (''version'', v)] None []"

definition package_dir :: "string \<Rightarrow> element \<Rightarrow> package" where
  "package_dir name m =
     \<lparr>dir_name = name, is_dir = True, manifest = Some (Inr m),
      files = [([''addon.xml''], ''<addon/>'')], fault = NoFault\<rparr>"

definition omega :: "bool \<Rightarrow> generator" where
  "omega frc = \<lparr>release_path = [''omega''], force = frc\<rparr>"


text \<open>The decisions of a run of \<^verbatim>\<open>Generator\<close>, none when the catalog cannot be loaded.\<close>

definition run_decisions :: "path \<Rightarrow> bool \<Rightarrow> package list \<Rightarrow> disk \<Rightarrow> decision option list" where
  "run_decisions release_dir frc entries d =
     (case load_catalog d of
        Inl e \<Rightarrow> []
      | Inr r \<Rightarrow>
          decisions \<lparr>release_path = release_dir, force = frc\<rparr> (addon_dirs entries)
            (initial_state r d))"

definition catalog_of :: "element list \<Rightarrow> element" where
  "catalog_of entries = Element ''addons'' [] None entries"










section \<open>Properties of the ignore filter\<close>

lemma fnmatchcase_star:
  "fnmatchcase name (CHR ''*'' # pat) = (\<exists>k \<le> length name. fnmatchcase (drop k name) pat)"
proof (induction name)
  case Nil
  then show ?case by simp
next
  case (Cons c name)
  have "(\<exists>k \<le> length (c # name). fnmatchcase (drop k (c # name)) pat)
      = (fnmatchcase (c # name) pat \<or> (\<exists>k \<le> length name. fnmatchcase (drop k name) pat))"
    (is "?L = ?R")
  proof
    assume ?L
    then obtain k where k: "k \<le> length (c # name)" "fnmatchcase (drop k (c # name)) pat" by blast
    show ?R
    proof (cases k)
      case 0
      with k show ?thesis by simp
    next
      case (Suc j)
      with k show ?thesis by auto
    qed
  next
    assume ?R
    then show ?L
    proof
      assume "fnmatchcase (c # name) pat"
      then have "fnmatchcase (drop 0 (c # name)) pat" by simp
      then show ?L by blast
    next
      assume "\<exists>k \<le> length name. fnmatchcase (drop k name) pat"
      then obtain k where "k \<le> length name" "fnmatchcase (drop k name) pat" by blast
      then have "Suc k \<le> length (c # name)" "fnmatchcase (drop (Suc k) (c # name)) pat" by simp_all
      then show ?L by blast
    qed
  qed
  with Cons show ?case by simp
qed

lemma fnmatchcase_literal:
  "CHR ''*'' \<notin> set pat \<Longrightarrow> CHR ''?'' \<notin> set pat \<Longrightarrow> fnmatchcase name pat = (name = pat)"
  by (induction name pat rule: fnmatchcase.induct) auto

lemma fnmatchcase_star_literal:
  assumes "CHR ''*'' \<notin> set lit" "CHR ''?'' \<notin> set lit"
  shows "fnmatchcase name (CHR ''*'' # lit) = suffix lit name"
proof -
  have "fnmatchcase name (CHR ''*'' # lit) = (\<exists>k \<le> length name. drop k name = lit)"
    by (simp add: fnmatchcase_star fnmatchcase_literal [OF assms])
  also have "\<dots> = suffix lit name"
  proof
    assume "\<exists>k \<le> length name. drop k name = lit"
    then obtain k where "drop k name = lit" by blast
    then show "suffix lit name" by (metis suffix_drop)
  next
    assume "suffix lit name"
    then obtain ys where "name = ys @ lit" by (auto simp: suffix_def)
    then have "length ys \<le> length name" "drop (length ys) name = lit" by simp_all
    then show "\<exists>k \<le> length name. drop k name = lit" by blast
  qed
  finally show ?thesis .
qed

lemma path_match_single:
  assumes "parts_of pattern = [pattern]"
  shows "path_match path pattern = Inr (path \<noteq> [] \<and> fnmatchcase (last path) pattern)"
proof (cases path rule: rev_cases)
  case Nil
  then show ?thesis by (simp add: path_match_def assms)
next
  case (snoc ys y)
  then show ?thesis by (simp add: path_match_def assms)
qed

lemma parts_of_patterns: "\<forall>pattern \<in> set IGNORE_PATTERNS. parts_of pattern = [pattern]"
  by (simp add: IGNORE_PATTERNS_def parts_of_def)

lemma any_pattern_single:
  assumes "\<forall>pattern \<in> set patterns. parts_of pattern = [pattern]"
  shows "any_pattern path patterns =
         Inr (\<exists>pattern \<in> set patterns. pattern \<in> set path \<or> path_match path pattern = Inr True)"
  using assms
proof (induction patterns)
  case Nil
  then show ?case by simp
next
  case (Cons p ps)
  then have p: "path_match path p = Inr (path \<noteq> [] \<and> fnmatchcase (last path) p)"
    by (simp add: path_match_single)
  from Cons have ih: "any_pattern path ps =
      Inr (\<exists>pattern \<in> set ps. pattern \<in> set path \<or> path_match path pattern = Inr True)"
    by simp
  show ?case by (auto simp: p ih)
qed

lemma patterns_split: "IGNORE_PATTERNS = reserved_names @ [''*.pyc'', ''*.pyo'']"
  by (simp add: IGNORE_PATTERNS_def reserved_names_def)

lemma reserved_literal:
  "\<forall>p \<in> set reserved_names. parts_of p = [p] \<and> CHR ''*'' \<notin> set p \<and> CHR ''?'' \<notin> set p"
  by (simp add: reserved_names_def parts_of_def)

lemma reserved_match:
  assumes "p \<in> set reserved_names"
  shows "path_match path p = Inr (path \<noteq> [] \<and> last path = p)"
  using assms reserved_literal by (simp add: path_match_single fnmatchcase_literal)

lemma pyc_match: "path_match path ''*.pyc'' = Inr (path \<noteq> [] \<and> suffix ''.pyc'' (last path))"
  by (simp add: path_match_single parts_of_def fnmatchcase_star_literal)

lemma pyo_match: "path_match path ''*.pyo'' = Inr (path \<noteq> [] \<and> suffix ''.pyo'' (last path))"
  by (simp add: path_match_single parts_of_def fnmatchcase_star_literal)

lemma ignored_explicit:
  "(\<exists>pattern \<in> set IGNORE_PATTERNS. pattern \<in> set path \<or> path_match path pattern = Inr True) =
   ((\<exists>pattern \<in> set IGNORE_PATTERNS. pattern \<in> set path) \<or>
    path \<noteq> [] \<and> (suffix ''.pyc'' (last path) \<or> suffix ''.pyo'' (last path)))"
  (is "?L = ?R")
proof
  assume ?L
  then obtain p where p: "p \<in> set IGNORE_PATTERNS" "p \<in> set path \<or> path_match path p = Inr True"
    by blast
  from p(1) consider "p \<in> set reserved_names" | "p = ''*.pyc''" | "p = ''*.pyo''"
    unfolding patterns_split by auto
  then show ?R
  proof cases
    case 1
    with p(2) have "p \<in> set path" by (auto simp: reserved_match)
    with p(1) show ?thesis by blast
  next
    case 2
    with p show ?thesis by (auto simp: pyc_match)
  next
    case 3
    with p show ?thesis by (auto simp: pyo_match)
  qed
next
  assume ?R
  then consider "\<exists>pattern \<in> set IGNORE_PATTERNS. pattern \<in> set path"
    | "path \<noteq> [] \<and> suffix ''.pyc'' (last path)" | "path \<noteq> [] \<and> suffix ''.pyo'' (last path)"
    by blast
  then show ?L
  proof cases
    case 1
    then show ?thesis by blast
  next
    case 2
    then have "path_match path ''*.pyc'' = Inr True" by (simp add: pyc_match)
    moreover have "''*.pyc'' \<in> set IGNORE_PATTERNS" unfolding patterns_split by simp
    ultimately show ?thesis by blast
  next
    case 3
    then have "path_match path ''*.pyo'' = Inr True" by (simp add: pyo_match)
    moreover have "''*.pyo'' \<in> set IGNORE_PATTERNS" unfolding patterns_split by simp
    ultimately show ?thesis by blast
  qed
qed


text \<open>
  Claim C8.  \<open>should_ignore\<close> never raises, and it answers true exactly when some
  configured pattern is one of the path's segments, at any depth, or matches the path as a
  glob.  With the configured patterns that is: a segment is one of the patterns, or the
  last segment ends in \<^verbatim>\<open>.pyc\<close> or \<^verbatim>\<open>.pyo\<close>.
\<close>

theorem should_ignore_iff:
  "should_ignore path =
     Inr (\<exists>pattern \<in> set IGNORE_PATTERNS. pattern \<in> set path \<or> path_match path pattern = Inr True)
   \<and> should_ignore path =
     Inr ((\<exists>pattern \<in> set IGNORE_PATTERNS. pattern \<in> set path) \<or>
          path \<noteq> [] \<and> (suffix ''.pyc'' (last path) \<or> suffix ''.pyo'' (last path)))"
  unfolding ignored_explicit [symmetric] should_ignore_def
  using any_pattern_single [OF parts_of_patterns] by simp

section \<open>Properties of the archiver\<close>

lemma print_fields [simp]:
  "addons_xml (print m d) = addons_xml d"
  "addons_xml_md5 (print m d) = addons_xml_md5 d"
  "zip_files (print m d) = zip_files d"
  "asset_files (print m d) = asset_files d"
  "trace (print m d) = trace d @ [Print m]"
  by (simp_all add: print_def)

lemma open_zip_fields [simp]:
  "addons_xml (open_zip zf d) = addons_xml d"
  "addons_xml_md5 (open_zip zf d) = addons_xml_md5 d"
  "zip_files (open_zip zf d) = (zip_files d)(zf \<mapsto> [])"
  "asset_files (open_zip zf d) = asset_files d"
  "trace (open_zip zf d) = trace d @ [OpenW (ZipFile zf)]"
  by (simp_all add: open_zip_def)

lemma zf_write_fields [simp]:
  "addons_xml (zf_write zf n c d) = addons_xml d"
  "addons_xml_md5 (zf_write zf n c d) = addons_xml_md5 d"
  "zip_files (zf_write zf n c d) = (zip_files d)(zf \<mapsto> members d zf @ [(n, c)])"
  "asset_files (zf_write zf n c d) = asset_files d"
  "trace (zf_write zf n c d) = trace d"
  by (simp_all add: zf_write_def)




lemma create_zip_skip:
  assumes "zip_files d (zip_file aid v) \<noteq> None" "\<not> force self"
  shows "create_zip self p (Some aid) v d = (None, print (SkippingExisting aid (py_str v)) d)"
  using assms by (simp add: create_zip_def)




text \<open>
  Claim C7.  When the archive of the id and version is there and force is off,
  \<^verbatim>\<open>_create_zip\<close> returns without an exception and does no work: the archives, the
  assets, the catalog and its checksum are as before, and the trace gains the message
  that the archive is skipped and nothing else, so no file is opened for writing.
\<close>

theorem create_zip_existing_noop:
  assumes "zip_files d (zip_file addon_id version) = Some ms" and "\<not> force self"
  shows "\<exists>d'. create_zip self addon_dir (Some addon_id) version d = (None, d') \<and>
              zip_files d' = zip_files d \<and> asset_files d' = asset_files d \<and>
              addons_xml d' = addons_xml d \<and> addons_xml_md5 d' = addons_xml_md5 d \<and>
              trace d' = trace d @ [Print (SkippingExisting addon_id (py_str version))]"
proof -
  from assms(1) have "zip_files d (zip_file addon_id version) \<noteq> None" by simp
  from create_zip_skip [OF this assms(2)] show ?thesis by simp
qed

text \<open>An archive that was just opened is there; the second call leaves it alone.\<close>

theorem create_zip_existing_noop_witness:
  "zip_files (open_zip (zip_file ''foo'' (Some ''1.0'')) empty_disk) (zip_file ''foo'' (Some ''1.0'')) = Some []
   \<and> \<not> force (omega False)
   \<and> (\<exists>d'. create_zip (omega False) (package_dir ''foo'' (addon ''foo'' ''1.0'')) (Some ''foo'') (Some ''1.0'')
                (open_zip (zip_file ''foo'' (Some ''1.0'')) empty_disk) = (None, d') \<and>
             zip_files d' = zip_files (open_zip (zip_file ''foo'' (Some ''1.0'')) empty_disk) \<and>
             trace d' = [OpenW (ZipFile (''foo'', ''foo-1.0.zip'')), Print (SkippingExisting ''foo'' ''1.0'')])"
proof -
  let ?d = "open_zip (zip_file ''foo'' (Some ''1.0'')) empty_disk"
  have h1: "zip_files ?d (zip_file ''foo'' (Some ''1.0'')) = Some []" by simp
  have h2: "\<not> force (omega False)" by (simp add: omega_def)
  have t: "trace ?d = [OpenW (ZipFile (''foo'', ''foo-1.0.zip''))]"
    by (simp add: empty_disk_def zip_file_def py_str_def)
  from create_zip_existing_noop [OF h1 h2, of "package_dir ''foo'' (addon ''foo'' ''1.0'')"]
  show ?thesis using h1 h2 t by (auto simp: py_str_def)
qed




section \<open>The asset publisher and one round of the loop\<close>

lemma copy_fields [simp]:
  "addons_xml (copy i dest c d) = addons_xml d"
  "addons_xml_md5 (copy i dest c d) = addons_xml_md5 d"
  "zip_files (copy i dest c d) = zip_files d"
  "trace (copy i dest c d) = trace d @ [OpenW (AssetFile (i, dest))]"
  by (simp_all add: copy_def)










lemma set_children_fields [simp]:
  "children (set_children r cs) = cs"
  "tag (set_children r cs) = tag r"
  by (simp_all add: set_children_def)

lemma children_append_child [simp]: "children (append_child r e) = children r @ [e]"
  by (simp add: append_child_def)


lemma try_body_parsed:
  assumes "find_addon (root st) (get m ''id'') = Inr existing"
  shows "try_body self p (Inr m) st =
         (if (case existing of None \<Rightarrow> False
              | Some e \<Rightarrow> get e ''version'' = get m ''version'' \<and> \<not> force self)
          then (None, st\<lparr>found_ids := insert (get m ''id'') (found_ids st)\<rparr>)
          else update_or_add self p m existing (st\<lparr>found_ids := insert (get m ''id'') (found_ids st)\<rparr>))"
  using assms by (simp add: try_body_def Let_def)


lemma process_skip:
  assumes "decision self p st = Some Skip"
  shows "\<exists>m. manifest p = Some (Inr m) \<and> raised self p st = None \<and>
             process_addon self p st = st\<lparr>found_ids := insert (get m ''id'') (found_ids st)\<rparr>"
proof -
  from assms obtain m where m: "manifest p = Some (Inr m)"
    by (auto simp: decision_def split: option.splits sum.splits)
  from assms m obtain e where e: "find_addon (root st) (get m ''id'') = Inr (Some e)"
    "get e ''version'' = get m ''version'' \<and> \<not> force self"
    by (auto simp: decision_def split: option.splits sum.splits if_splits)
  show ?thesis
    using m e by (simp add: process_addon_def raised_def try_body_parsed [OF e(1)])
qed

lemma process_no_decision:
  assumes "decision self p st = None"
  shows "root (process_addon self p st) = root st \<and>
         changed (process_addon self p st) = changed st \<and>
         (\<exists>msgs. fs (process_addon self p st) = (fs st)\<lparr>trace := trace (fs st) @ map Print msgs\<rparr>)"
proof (cases "manifest p")
  case None
  then have "process_addon self p st = st" by (simp add: process_addon_def)
  then show ?thesis by (intro conjI exI [of _ "[]"]) simp_all
next
  case (Some parsed)
  have "\<exists>e F. try_body self p parsed st = (Some e, st\<lparr>found_ids := F\<rparr>)"
  proof (cases parsed)
    case (Inl e)
    then have "try_body self p parsed st = (Some e, st\<lparr>found_ids := found_ids st\<rparr>)"
      by (simp add: try_body_def)
    then show ?thesis by blast
  next
    case (Inr m)
    with assms Some obtain e where e: "find_addon (root st) (get m ''id'') = Inl e"
      by (auto simp: decision_def split: option.splits sum.splits if_splits)
    with Inr have "try_body self p parsed st = (Some e, st\<lparr>found_ids := insert (get m ''id'') (found_ids st)\<rparr>)"
      by (simp add: try_body_def Let_def)
    then show ?thesis by blast
  qed
  then obtain e F where e: "try_body self p parsed st = (Some e, st\<lparr>found_ids := F\<rparr>)" by blast
  have p: "process_addon self p st =
        st\<lparr>found_ids := F, fs := print (ErrorProcessing (dir_name p) e) (fs st)\<rparr>"
    by (simp add: process_addon_def Some e)
  show ?thesis
    unfolding p by (intro conjI exI [of _ "[ErrorProcessing (dir_name p) e]"]) (simp_all add: print_def)
qed


section \<open>The decision of a round\<close>








section \<open>Runs without a decision\<close>

lemma print_only_trans:
  assumes "d1 = d\<lparr>trace := trace d @ map Print a\<rparr>" "d2 = d1\<lparr>trace := trace d1 @ map Print b\<rparr>"
  shows "d2 = d\<lparr>trace := trace d @ map Print (a @ b)\<rparr>"
  using assms by simp

lemma quiet_round:
  assumes "decision self p st \<noteq> Some Insert" "decision self p st \<noteq> Some Replace"
  shows "root (process_addon self p st) = root st \<and>
         changed (process_addon self p st) = changed st \<and>
         (\<exists>msgs. fs (process_addon self p st) = (fs st)\<lparr>trace := trace (fs st) @ map Print msgs\<rparr>)"
proof (cases "decision self p st")
  case None
  then show ?thesis by (rule process_no_decision)
next
  case (Some dec)
  with assms have "decision self p st = Some Skip" by (cases dec) simp_all
  from process_skip [OF this] obtain m where
    "process_addon self p st = st\<lparr>found_ids := insert (get m ''id'') (found_ids st)\<rparr>" by blast
  then show ?thesis by (intro conjI exI [of _ "[]"]) simp_all
qed

lemma quiet_loop:
  assumes "Some Insert \<notin> set (decisions self ps st)" "Some Replace \<notin> set (decisions self ps st)"
  shows "root (fold (process_addon self) ps st) = root st \<and>
         changed (fold (process_addon self) ps st) = changed st \<and>
         (\<exists>msgs. fs (fold (process_addon self) ps st) = (fs st)\<lparr>trace := trace (fs st) @ map Print msgs\<rparr>)"
  using assms
proof (induction ps arbitrary: st)
  case Nil
  show ?case by (intro conjI exI [of _ "[]"]) simp_all
next
  case (Cons p ps)
  let ?st = "process_addon self p st"
  from Cons.prems have d: "decision self p st \<noteq> Some Insert" "decision self p st \<noteq> Some Replace"
    by auto
  from quiet_round [OF d] obtain a where a:
    "root ?st = root st" "changed ?st = changed st"
    "fs ?st = (fs st)\<lparr>trace := trace (fs st) @ map Print a\<rparr>" by blast
  from Cons.prems have "Some Insert \<notin> set (decisions self ps ?st)" "Some Replace \<notin> set (decisions self ps ?st)"
    by auto
  from Cons.IH [OF this] obtain b where b:
    "root (fold (process_addon self) ps ?st) = root ?st"
    "changed (fold (process_addon self) ps ?st) = changed ?st"
    "fs (fold (process_addon self) ps ?st) = (fs ?st)\<lparr>trace := trace (fs ?st) @ map Print b\<rparr>" by blast
  from print_only_trans [OF a(3) b(3)] a b show ?case
    by (intro conjI exI [of _ "a @ b"]) simp_all
qed

text \<open>
  Claim C6.  A run of \<^verbatim>\<open>Generator\<close> in which no package takes the way of \<open>Insert\<close> or
  \<open>Replace\<close> leaves the catalog file and the checksum file as they were; indeed the one
  thing it does is print messages: no file at all is opened for writing.
\<close>

theorem no_decision_no_write:
  assumes "Some Insert \<notin> set (run_decisions release_dir frc entries d)"
    and "Some Replace \<notin> set (run_decisions release_dir frc entries d)"
  shows "addons_xml (snd (Generator release_dir frc entries d)) = addons_xml d \<and>
         addons_xml_md5 (snd (Generator release_dir frc entries d)) = addons_xml_md5 d \<and>
         (\<exists>msgs. snd (Generator release_dir frc entries d) = d\<lparr>trace := trace d @ map Print msgs\<rparr>)"
proof -
  let ?self = "\<lparr>release_path = release_dir, force = frc\<rparr>"
  have "\<exists>msgs. snd (Generator release_dir frc entries d) = d\<lparr>trace := trace d @ map Print msgs\<rparr>"
  proof (cases "load_catalog d")
    case (Inl e)
    then have "snd (Generator release_dir frc entries d) = d"
      by (simp add: Generator_def generate_addons_xml_def)
    then show ?thesis by (intro exI [of _ "[]"]) simp
  next
    case (Inr r)
    let ?st = "fold (process_addon ?self) (addon_dirs entries) (initial_state r d)"
    from assms Inr have
      "Some Insert \<notin> set (decisions ?self (addon_dirs entries) (initial_state r d))"
      "Some Replace \<notin> set (decisions ?self (addon_dirs entries) (initial_state r d))"
      by (simp_all add: run_decisions_def)
    from quiet_loop [OF this] obtain msgs where q:
      "changed ?st = False" "fs ?st = d\<lparr>trace := trace d @ map Print msgs\<rparr>"
      by (auto simp: initial_state_def)
    have "snd (Generator release_dir frc entries d) = print NoChanges (fs ?st)"
      using Inr q(1) by (simp add: Generator_def generate_addons_xml_def Let_def)
    then have "snd (Generator release_dir frc entries d) = d\<lparr>trace := trace d @ map Print (msgs @ [NoChanges])\<rparr>"
      by (simp add: q(2) print_def)
    then show ?thesis by blast
  qed
  then obtain msgs where m: "snd (Generator release_dir frc entries d) = d\<lparr>trace := trace d @ map Print msgs\<rparr>" ..
  show ?thesis unfolding m by (intro conjI exI [of _ msgs]) simp_all
qed

text \<open>The second run over a package that is in the catalog with the same version.\<close>

theorem no_decision_no_write_witness:
  "Some Insert \<notin> set (run_decisions [''omega''] False [package_dir ''foo'' (addon ''foo'' ''1.0'')]
      (empty_disk\<lparr>addons_xml := Some (Inr (catalog_of [addon ''foo'' ''1.0'']))\<rparr>)) \<and>
   Some Replace \<notin> set (run_decisions [''omega''] False [package_dir ''foo'' (addon ''foo'' ''1.0'')]
      (empty_disk\<lparr>addons_xml := Some (Inr (catalog_of [addon ''foo'' ''1.0'']))\<rparr>)) \<and>
   addons_xml (snd (Generator [''omega''] False [package_dir ''foo'' (addon ''foo'' ''1.0'')]
      (empty_disk\<lparr>addons_xml := Some (Inr (catalog_of [addon ''foo'' ''1.0'']))\<rparr>)))
     = Some (Inr (catalog_of [addon ''foo'' ''1.0''])) \<and>
   addons_xml_md5 (snd (Generator [''omega''] False [package_dir ''foo'' (addon ''foo'' ''1.0'')]
      (empty_disk\<lparr>addons_xml := Some (Inr (catalog_of [addon ''foo'' ''1.0'']))\<rparr>))) = None"
proof -
  let ?d = "empty_disk\<lparr>addons_xml := Some (Inr (catalog_of [addon ''foo'' ''1.0'']))\<rparr>"
  let ?es = "[package_dir ''foo'' (addon ''foo'' ''1.0'')]"
  have rd: "run_decisions [''omega''] False ?es ?d = [Some Skip]"
    by (simp add: run_decisions_def load_catalog_def empty_disk_def addon_dirs_def package_dir_def
        decision_def find_addon_def py_str_def get_def addon_def catalog_of_def initial_state_def)
  have h1: "Some Insert \<notin> set (run_decisions [''omega''] False ?es ?d)" by (simp add: rd)
  have h2: "Some Replace \<notin> set (run_decisions [''omega''] False ?es ?d)" by (simp add: rd)
  from no_decision_no_write [OF h1 h2] show ?thesis
    using h1 h2 by (simp add: empty_disk_def)
qed


section \<open>Exceptions of a package\<close>
























section \<open>Manifests without id or version\<close>







section \<open>The catalog that a run writes\<close>











end
